theory Spec2Isabelle
  imports
    Complex_Main
    "HOL-Library.Char_ord"
    "HOL-Library.List_Lexorder"
    "HOL-Library.Product_Lexorder"
    "HOL-Library.Sublist"
    "HOL-Library.Multiset"
begin

section \<open>Personal expense tracker: a model of \<^verbatim>\<open>main.py\<close>\<close>

text \<open>
  The program keeps one SQLite table \<^verbatim>\<open>expenses\<close>, reads it into pandas frames and
  aggregates, plots and exports those. The model keeps the table as a list of rows in
  insertion order, a frame as a list of frame rows, and every exception as a value.

  Strings are lists of 8-bit characters and are read as ASCII text; the order on them
  is the lexicographic order on character codes, which is SQLite's \<^verbatim>\<open>BINARY\<close>
  collation on \<^verbatim>\<open>TEXT\<close>. Amounts (\<^verbatim>\<open>REAL\<close>, Python floats) are exact real
  numbers: rounding, infinities and NaN are outside the model.
\<close>

subsection \<open>Characters and strings\<close>

definition is_digit :: "char \<Rightarrow> bool" where
  "is_digit c = (c \<in> set ''0123456789'')"

definition digit_val :: "char \<Rightarrow> nat" where
  "digit_val c = of_char c - 48"

definition is_nonzero_digit :: "char \<Rightarrow> bool" where
  "is_nonzero_digit c = (c \<in> set ''123456789'')"

text \<open>
  Python's \<^verbatim>\<open>str.strip()\<close> removes leading and trailing whitespace; among the ASCII
  characters these are the codes 9 to 13, 28 to 31 and 32.
\<close>

definition is_space :: "char \<Rightarrow> bool" where
  "is_space c = ((of_char c :: nat) \<in> set [9, 10, 11, 12, 13, 28, 29, 30, 31, 32])"

definition strip :: "string \<Rightarrow> string" where
  "strip s = rev (dropWhile is_space (rev (dropWhile is_space s)))"

text \<open>
  SQLite's built-in \<^verbatim>\<open>lower()\<close> folds the ASCII letters only; on ASCII text
  Python's \<^verbatim>\<open>str.lower()\<close>, which the console uses, is the same function.
\<close>

definition lower_char :: "char \<Rightarrow> char" where
  "lower_char c =
     (case map_of (zip ''ABCDEFGHIJKLMNOPQRSTUVWXYZ'' ''abcdefghijklmnopqrstuvwxyz'') c of
        Some l \<Rightarrow> l
      | None \<Rightarrow> c)"

definition lower :: "string \<Rightarrow> string" where
  "lower s = map lower_char s"

subsection \<open>Calendar dates and \<^verbatim>\<open>datetime.strptime(date_str, "%Y-%m-%d")\<close>\<close>

datatype py_error = ValueError string | EOFError

record pydate =
  year :: nat
  month :: nat
  day :: nat

definition is_leap :: "nat \<Rightarrow> bool" where
  "is_leap y = (y mod 4 = 0 \<and> (y mod 100 \<noteq> 0 \<or> y mod 400 = 0))"

definition days_in_month :: "nat \<Rightarrow> nat \<Rightarrow> nat" where
  "days_in_month y m =
     (if m = 2 then (if is_leap y then 29 else 28)
      else if m \<in> set [4, 6, 9, 11] then 30
      else 31)"

text \<open>
  \<^verbatim>\<open>strptime\<close> turns the format into a regular expression and matches it at the
  start of the text. The directives of \<^verbatim>\<open>%Y-%m-%d\<close> are these groups, with the
  alternatives tried from left to right:
  \<^item> \<^verbatim>\<open>%Y\<close> is \<^verbatim>\<open>\d\d\d\d\<close>;
  \<^item> \<^verbatim>\<open>%m\<close> is \<^verbatim>\<open>1[0-2]|0[1-9]|[1-9]\<close>;
  \<^item> \<^verbatim>\<open>%d\<close> is \<^verbatim>\<open>3[0-1]|[1-2]\d|0[1-9]|[1-9]| [1-9]\<close>.
  Each function below returns the matches of one group in that order, each with the
  value read and the text that is left.
\<close>

fun re_Y :: "string \<Rightarrow> (nat \<times> string) list" where
  "re_Y (a # b # c # d # rest) =
     (if is_digit a \<and> is_digit b \<and> is_digit c \<and> is_digit d
      then [(1000 * digit_val a + 100 * digit_val b + 10 * digit_val c + digit_val d, rest)]
      else [])"
| "re_Y _ = []"

fun two_chars :: "(char \<Rightarrow> bool) \<Rightarrow> (char \<Rightarrow> bool) \<Rightarrow> (char \<Rightarrow> char \<Rightarrow> nat) \<Rightarrow> string
    \<Rightarrow> (nat \<times> string) list" where
  "two_chars p q v (a # b # rest) = (if p a \<and> q b then [(v a b, rest)] else [])"
| "two_chars p q v _ = []"

fun one_char :: "(char \<Rightarrow> bool) \<Rightarrow> string \<Rightarrow> (nat \<times> string) list" where
  "one_char p (a # rest) = (if p a then [(digit_val a, rest)] else [])"
| "one_char p [] = []"

definition two_digits :: "char \<Rightarrow> char \<Rightarrow> nat" where
  "two_digits a b = 10 * digit_val a + digit_val b"

definition re_m :: "string \<Rightarrow> (nat \<times> string) list" where
  "re_m s =
     two_chars (\<lambda>c. c = CHR ''1'') (\<lambda>c. c \<in> set ''012'') two_digits s
     @ two_chars (\<lambda>c. c = CHR ''0'') is_nonzero_digit two_digits s
     @ one_char is_nonzero_digit s"

definition re_d :: "string \<Rightarrow> (nat \<times> string) list" where
  "re_d s =
     two_chars (\<lambda>c. c = CHR ''3'') (\<lambda>c. c \<in> set ''01'') two_digits s
     @ two_chars (\<lambda>c. c \<in> set ''12'') is_digit two_digits s
     @ two_chars (\<lambda>c. c = CHR ''0'') is_nonzero_digit two_digits s
     @ one_char is_nonzero_digit s
     @ two_chars (\<lambda>c. c = CHR '' '') is_nonzero_digit (\<lambda>a b. digit_val b) s"

fun literal :: "char \<Rightarrow> string \<Rightarrow> string list" where
  "literal c (a # rest) = (if a = c then [rest] else [])"
| "literal c [] = []"

text \<open>
  The match of the whole expression is the first one in the order of the alternatives
  (the expression has no end anchor, so the first day alternative that matches wins);
  what is left of the text is returned with it.
\<close>

definition format_regex_match :: "string \<Rightarrow> (nat \<times> nat \<times> nat \<times> string) option" where
  "format_regex_match s =
     (case concat (map (\<lambda>(y, s1).
             concat (map (\<lambda>s2.
               concat (map (\<lambda>(m, s3).
                 concat (map (\<lambda>s4.
                   map (\<lambda>(d, s5). (y, m, d, s5)) (re_d s4))
                 (literal CHR ''-'' s3)))
               (re_m s2)))
             (literal CHR ''-'' s1)))
           (re_Y s)) of
        [] \<Rightarrow> None
      | found # _ \<Rightarrow> Some found)"

text \<open>
  \<^verbatim>\<open>strptime\<close> raises \<^verbatim>\<open>ValueError\<close> when the expression does not match, when
  text is left after the match, and when the numbers read are not a date of the
  calendar (years start at 1). The messages are the library's without the quoted input.
\<close>

definition strptime :: "string \<Rightarrow> py_error + pydate" where
  "strptime data_string =
     (case format_regex_match data_string of
        None \<Rightarrow> Inl (ValueError ''time data does not match format'')
      | Some (y, m, d, rest) \<Rightarrow>
          if rest \<noteq> [] then Inl (ValueError ''unconverted data remains'')
          else if y < 1 then Inl (ValueError ''year is out of range'')
          else if days_in_month y m < d then Inl (ValueError ''day is out of range for month'')
          else Inr \<lparr>year = y, month = m, day = d\<rparr>)"

subsection \<open>The table \<^verbatim>\<open>expenses\<close>\<close>

text \<open>
  A row has the columns \<^verbatim>\<open>id INTEGER PRIMARY KEY AUTOINCREMENT\<close>,
  \<^verbatim>\<open>date TEXT NOT NULL\<close>, \<^verbatim>\<open>category TEXT NOT NULL\<close>,
  \<^verbatim>\<open>amount REAL NOT NULL\<close> and \<^verbatim>\<open>notes TEXT\<close> (nullable).
\<close>

record expense =
  exp_id :: int
  exp_date :: string
  exp_category :: string
  exp_amount :: real
  exp_notes :: "string option"

text \<open>
  The database file: the rows of the table in insertion order and the counter that
  \<^verbatim>\<open>AUTOINCREMENT\<close> keeps (the largest id ever given out).
\<close>

record database =
  expenses :: "expense list"
  sqlite_sequence :: int

definition init_db :: database where
  "init_db = \<lparr>expenses = [], sqlite_sequence = 0\<rparr>"

definition next_id :: "database \<Rightarrow> int" where
  "next_id db = fold max (map exp_id (expenses db)) (sqlite_sequence db) + 1"

definition insert_expense :: "database \<Rightarrow> string \<Rightarrow> string \<Rightarrow> real \<Rightarrow> string option \<Rightarrow> database" where
  "insert_expense db d c a n =
     \<lparr>expenses = expenses db @
        [\<lparr>exp_id = next_id db, exp_date = d, exp_category = c, exp_amount = a, exp_notes = n\<rparr>],
      sqlite_sequence = next_id db\<rparr>"

text \<open>
  \<^verbatim>\<open>add_expense(date_str, category, amount, notes="")\<close>: the date is checked with
  \<^verbatim>\<open>strptime\<close> and any \<^verbatim>\<open>ValueError\<close> is raised again with the message below;
  otherwise the row \<^verbatim>\<open>(date_str, category.strip(), float(amount),
  notes.strip() if notes else None)\<close> is inserted. The text of the date is stored as
  it was passed. The amount is a number here, so \<^verbatim>\<open>float(amount)\<close> is the amount.
\<close>

definition add_expense :: "database \<Rightarrow> string \<Rightarrow> string \<Rightarrow> real \<Rightarrow> string \<Rightarrow> py_error + database" where
  "add_expense db date_str category amount notes =
     (case strptime date_str of
        Inl e \<Rightarrow> Inl (ValueError ''Date must be in YYYY-MM-DD format.'')
      | Inr d \<Rightarrow>
          Inr (insert_expense db date_str (strip category) amount
                 (if notes \<noteq> [] then Some (strip notes) else None)))"

subsection \<open>Reading the table: \<^verbatim>\<open>ORDER BY date DESC, id DESC\<close> and \<^verbatim>\<open>read_sql_query\<close>\<close>

text \<open>
  \<^verbatim>\<open>precedes a b\<close>: row \<open>a\<close> may stand before row \<open>b\<close> in the result of
  \<^verbatim>\<open>ORDER BY date DESC, id DESC\<close>. The column \<^verbatim>\<open>date\<close> is \<^verbatim>\<open>TEXT\<close>, so
  the dates are compared as text.
\<close>

definition precedes :: "expense \<Rightarrow> expense \<Rightarrow> bool" where
  "precedes a b =
     (exp_date b < exp_date a \<or> (exp_date a = exp_date b \<and> exp_id b \<le> exp_id a))"

fun insert_row :: "expense \<Rightarrow> expense list \<Rightarrow> expense list" where
  "insert_row x [] = [x]"
| "insert_row x (y # ys) = (if precedes x y then x # y # ys else y # insert_row x ys)"

definition order_by_date_id_desc :: "expense list \<Rightarrow> expense list" where
  "order_by_date_id_desc rs = foldr insert_row rs []"

text \<open>
  A frame row. \<^verbatim>\<open>parse_dates=['date']\<close> converts the date column with pandas'
  \<^verbatim>\<open>to_datetime(column, errors="coerce")\<close>: an entry becomes a calendar date, or
  \<^verbatim>\<open>NaT\<close> (\<open>None\<close>) where pandas reads no date. pandas infers the format from the
  column, so what it reads off one text depends on the other texts of the column (and on
  the version of pandas). The conversion is therefore a parameter of everything that
  reads the table: \<open>to_datetime col s\<close> is what the conversion of the column
  \<open>col\<close> gives for its entry \<open>s\<close>.
\<close>

record df_row =
  df_id :: int
  df_date :: "pydate option"
  df_category :: string
  df_amount :: real
  df_notes :: "string option"

type_synonym conversion = "string list \<Rightarrow> string \<Rightarrow> pydate option"

definition read_sql_query :: "conversion \<Rightarrow> expense list \<Rightarrow> df_row list" where
  "read_sql_query to_datetime rs =
     map (\<lambda>r. \<lparr>df_id = exp_id r, df_date = to_datetime (map exp_date rs) (exp_date r),
               df_category = exp_category r, df_amount = exp_amount r, df_notes = exp_notes r\<rparr>)
       rs"

definition fetch_all :: "conversion \<Rightarrow> database \<Rightarrow> df_row list" where
  "fetch_all to_datetime db = read_sql_query to_datetime (order_by_date_id_desc (expenses db))"

subsection \<open>\<^verbatim>\<open>search_expenses\<close>\<close>

text \<open>The conditions that the function appends to \<^verbatim>\<open>WHERE 1=1\<close>, with their parameter.\<close>

datatype condition =
    Date_ge string
  | Date_le string
  | Category_eq string
  | Amount_ge real
  | Amount_le real

fun holds :: "condition \<Rightarrow> expense \<Rightarrow> bool" where
  "holds (Date_ge p) r = (p \<le> exp_date r)"
| "holds (Date_le p) r = (exp_date r \<le> p)"
| "holds (Category_eq p) r = (lower (exp_category r) = lower p)"
| "holds (Amount_ge p) r = (p \<le> exp_amount r)"
| "holds (Amount_le p) r = (exp_amount r \<le> p)"

text \<open>
  \<^verbatim>\<open>if start_date:\<close> is Python's truth test: \<^verbatim>\<open>None\<close> and the empty string are
  false. \<^verbatim>\<open>if min_amt is not None:\<close> is false for \<^verbatim>\<open>None\<close> only.
\<close>

fun if_truthy :: "(string \<Rightarrow> condition) \<Rightarrow> string option \<Rightarrow> condition list" where
  "if_truthy mk None = []"
| "if_truthy mk (Some s) = (if s \<noteq> [] then [mk s] else [])"

fun if_not_None :: "(real \<Rightarrow> condition) \<Rightarrow> real option \<Rightarrow> condition list" where
  "if_not_None mk None = []"
| "if_not_None mk (Some v) = [mk v]"

definition build_query ::
  "string option \<Rightarrow> string option \<Rightarrow> string option \<Rightarrow> real option \<Rightarrow> real option \<Rightarrow> condition list" where
  "build_query start_date end_date category min_amt max_amt =
     if_truthy Date_ge start_date
     @ if_truthy Date_le end_date
     @ if_truthy Category_eq category
     @ if_not_None Amount_ge min_amt
     @ if_not_None Amount_le max_amt"

definition search_expenses ::
  "conversion \<Rightarrow> database \<Rightarrow> string option \<Rightarrow> string option \<Rightarrow> string option
    \<Rightarrow> real option \<Rightarrow> real option \<Rightarrow> df_row list" where
  "search_expenses to_datetime db start_date end_date category min_amt max_amt =
     (let query = build_query start_date end_date category min_amt max_amt
      in read_sql_query to_datetime
           (order_by_date_id_desc (filter (\<lambda>r. list_all (\<lambda>c. holds c r) query) (expenses db))))"

subsection \<open>Analytics\<close>

definition total_spending :: "df_row list \<Rightarrow> real" where
  "total_spending df = sum_list (map df_amount df)"

text \<open>
  \<^verbatim>\<open>df.groupby(key)[val].sum()\<close>: one entry per key that occurs, the keys in
  ascending order, each with the sum of its rows. With \<^verbatim>\<open>dropna=False\<close> every row
  is in a group; by default the rows whose key is missing are dropped.
\<close>

definition groupby_sum :: "('r \<Rightarrow> 'k::linorder) \<Rightarrow> ('r \<Rightarrow> real) \<Rightarrow> 'r list \<Rightarrow> ('k \<times> real) list" where
  "groupby_sum key val df =
     map (\<lambda>k. (k, sum_list (map val (filter (\<lambda>r. key r = k) df)))) (sort (remdups (map key df)))"

definition groupby_sum_dropna ::
  "('r \<Rightarrow> 'k::linorder option) \<Rightarrow> ('r \<Rightarrow> real) \<Rightarrow> 'r list \<Rightarrow> ('k \<times> real) list" where
  "groupby_sum_dropna key val df =
     map (\<lambda>k. (k, sum_list (map val (filter (\<lambda>r. key r = Some k) df))))
       (sort (remdups (List.map_filter key df)))"

text \<open>
  \<^verbatim>\<open>sort_values(ascending=False)\<close>: the entries by descending value. pandas does not
  fix the order of entries with equal values; here they keep their order.
\<close>

fun insert_value :: "('k \<times> real) \<Rightarrow> ('k \<times> real) list \<Rightarrow> ('k \<times> real) list" where
  "insert_value x [] = [x]"
| "insert_value x (y # ys) = (if snd y \<le> snd x then x # y # ys else y # insert_value x ys)"

definition sort_values_desc :: "('k \<times> real) list \<Rightarrow> ('k \<times> real) list" where
  "sort_values_desc s = foldr insert_value s []"

definition spending_by_category :: "df_row list \<Rightarrow> (string \<times> real) list" where
  "spending_by_category df = sort_values_desc (groupby_sum df_category df_amount df)"

text \<open>
  \<^verbatim>\<open>monthly_trend\<close>: the date column of a frame holds dates already, so
  \<^verbatim>\<open>pd.to_datetime\<close> leaves it as it is. The month of a date is the period
  (year, month); the months are grouped (rows without a date are dropped), summed,
  sorted by period and the periods turned into text \<^verbatim>\<open>YYYY-MM\<close>.
\<close>

definition digit_char :: "nat \<Rightarrow> char" where
  "digit_char n = ''0123456789'' ! (n mod 10)"

definition pad2 :: "nat \<Rightarrow> string" where
  "pad2 n = [digit_char (n div 10), digit_char n]"

definition pad4 :: "nat \<Rightarrow> string" where
  "pad4 n = [digit_char (n div 1000), digit_char (n div 100), digit_char (n div 10), digit_char n]"

definition to_period_M :: "pydate \<Rightarrow> nat \<times> nat" where
  "to_period_M d = (year d, month d)"

definition period_str :: "nat \<times> nat \<Rightarrow> string" where
  "period_str p = pad4 (fst p) @ ''-'' @ pad2 (snd p)"

definition monthly_trend :: "df_row list \<Rightarrow> (string \<times> real) list" where
  "monthly_trend df =
     (let series = sort_key fst
                     (groupby_sum_dropna (\<lambda>r. map_option to_period_M (df_date r)) df_amount df)
      in map (\<lambda>(p, s). (period_str p, s)) series)"

subsection \<open>Charts\<close>

text \<open>What a plot function does: it prints, and it calls the plotting library.\<close>

datatype effect =
    Print string
  | Figure nat nat
  | Plot_pie "(string \<times> real) list"
  | Plot_line "(string \<times> real) list"
  | Xlabel string
  | Ylabel string
  | Title string
  | Grid
  | Tight_layout
  | Savefig string
  | Close

definition plot_pie_category :: "(string \<times> real) list \<Rightarrow> string \<Rightarrow> effect list \<times> string option" where
  "plot_pie_category series out_path =
     (if series = [] then ([Print ''No data to plot for category pie chart.''], None)
      else ([Figure 6 6, Plot_pie series, Title ''Spending by Category'', Tight_layout,
             Savefig out_path, Close], Some out_path))"

definition plot_monthly_trend :: "(string \<times> real) list \<Rightarrow> string \<Rightarrow> effect list \<times> string option" where
  "plot_monthly_trend series out_path =
     (if series = [] then ([Print ''No data to plot for monthly trend.''], None)
      else ([Figure 8 4, Plot_line series, Xlabel ''Month'', Ylabel ''Total Spending'',
             Title ''Monthly Spending Trend'', Grid, Tight_layout, Savefig out_path, Close],
            Some out_path))"

definition rasterizes :: "effect \<Rightarrow> bool" where
  "rasterizes e = (case e of Print s \<Rightarrow> False | _ \<Rightarrow> True)"

subsection \<open>Export\<close>


definition strftime_Ymd :: "pydate \<Rightarrow> string" where
  "strftime_Ymd d = pad4 (year d) @ ''-'' @ pad2 (month d) @ ''-'' @ pad2 (day d)"





subsection \<open>The console: \<^verbatim>\<open>prompt_add\<close>\<close>

text \<open>
  The console reads lines with \<^verbatim>\<open>input()\<close>, which raises \<^verbatim>\<open>EOFError\<close> at the end
  of the input, and prints lines. The model takes the lines still to be read and
  returns the lines printed by \<^verbatim>\<open>print\<close> (the prompts of \<^verbatim>\<open>input\<close> are left out).
  Python's \<^verbatim>\<open>float\<close> on text and the date of today are parameters.
\<close>

definition add_banner :: string where
  "add_banner =
     [CHR 0x0A] @ ''Add new expense (enter '' @ [CHR 0x27] @ ''q'' @ [CHR 0x27]
     @ '' to cancel)'' @ [CHR 0x0A]"

definition added_message :: string where
  "added_message = [CHR 0xE2, CHR 0x9C, CHR 0x94] @ '' Expense added.''"

fun str_of_error :: "py_error \<Rightarrow> string" where
  "str_of_error (ValueError msg) = msg"
| "str_of_error EOFError = []"

definition prompt_add ::
  "(string \<Rightarrow> real option) \<Rightarrow> string \<Rightarrow> database \<Rightarrow> string list
    \<Rightarrow> py_error + (database \<times> string list)" where
  "prompt_add py_float today db lines =
     (case lines of
        [] \<Rightarrow> Inl EOFError
      | l1 # lines1 \<Rightarrow>
          let date = strip l1 in
          if lower date = ''q'' then Inr (db, [add_banner])
          else
            let date = (if date = [] then today else date) in
            (case lines1 of
               [] \<Rightarrow> Inl EOFError
             | l2 # lines2 \<Rightarrow>
                 let category = strip l2 in
                 if lower category = ''q'' \<or> category = []
                 then Inr (db, [add_banner, ''Cancelled or invalid category.''])
                 else
                   (case lines2 of
                      [] \<Rightarrow> Inl EOFError
                    | l3 # lines3 \<Rightarrow>
                        let amount = strip l3 in
                        if lower amount = ''q'' then Inr (db, [add_banner])
                        else
                          (case py_float amount of
                             None \<Rightarrow> Inr (db, [add_banner, ''Invalid amount. Aborting.''])
                           | Some amt \<Rightarrow>
                               (case lines3 of
                                  [] \<Rightarrow> Inl EOFError
                                | l4 # lines4 \<Rightarrow>
                                    let notes = strip l4 in
                                    (case add_expense db date category amt notes of
                                       Inl e \<Rightarrow>
                                         Inr (db, [add_banner,
                                                   ''Error adding expense: '' @ str_of_error e])
                                     | Inr db' \<Rightarrow> Inr (db', [add_banner, added_message])))))))"

section \<open>The properties, as the specification words them\<close>

subsection \<open>Records and example tables\<close>

text \<open>
  The fields of a record other than its date, as stored and as read into a frame.
\<close>

definition exp_fields :: "expense \<Rightarrow> int \<times> string \<times> real \<times> string option" where
  "exp_fields r = (exp_id r, exp_category r, exp_amount r, exp_notes r)"

definition df_fields :: "df_row \<Rightarrow> int \<times> string \<times> real \<times> string option" where
  "df_fields r = (df_id r, df_category r, df_amount r, df_notes r)"

text \<open>Calls of \<^verbatim>\<open>add_expense\<close> one after the other, stopping at the first error.\<close>

fun add_all :: "database \<Rightarrow> (string \<times> string \<times> real \<times> string) list \<Rightarrow> py_error + database" where
  "add_all db [] = Inr db"
| "add_all db ((d, c, a, n) # rest) =
     (case add_expense db d c a n of Inl e \<Rightarrow> Inl e | Inr db' \<Rightarrow> add_all db' rest)"

text \<open>
  The three records of the specification's scenario, as a table and as the frame read
  from it.
\<close>

definition scenario_db :: database where
  "scenario_db =
     \<lparr>expenses =
        [\<lparr>exp_id = 1, exp_date = ''2024-01-15'', exp_category = ''Food'', exp_amount = 20,
          exp_notes = None\<rparr>,
         \<lparr>exp_id = 2, exp_date = ''2024-01-20'', exp_category = ''Food'', exp_amount = 30,
          exp_notes = None\<rparr>,
         \<lparr>exp_id = 3, exp_date = ''2024-02-01'', exp_category = ''Travel'', exp_amount = 100,
          exp_notes = None\<rparr>],
      sqlite_sequence = 3\<rparr>"

definition scenario_frame :: "df_row list" where
  "scenario_frame =
     [\<lparr>df_id = 3, df_date = Some \<lparr>year = 2024, month = 2, day = 1\<rparr>,
       df_category = ''Travel'', df_amount = 100, df_notes = None\<rparr>,
      \<lparr>df_id = 2, df_date = Some \<lparr>year = 2024, month = 1, day = 20\<rparr>,
       df_category = ''Food'', df_amount = 30, df_notes = None\<rparr>,
      \<lparr>df_id = 1, df_date = Some \<lparr>year = 2024, month = 1, day = 15\<rparr>,
       df_category = ''Food'', df_amount = 20, df_notes = None\<rparr>]"

text \<open>A frame with the same month in two years.\<close>

definition two_year_frame :: "df_row list" where
  "two_year_frame =
     [\<lparr>df_id = 4, df_date = Some \<lparr>year = 2024, month = 2, day = 1\<rparr>,
       df_category = ''Travel'', df_amount = 100, df_notes = None\<rparr>,
      \<lparr>df_id = 3, df_date = Some \<lparr>year = 2024, month = 1, day = 20\<rparr>,
       df_category = ''Food'', df_amount = 30, df_notes = None\<rparr>,
      \<lparr>df_id = 2, df_date = Some \<lparr>year = 2024, month = 1, day = 15\<rparr>,
       df_category = ''Food'', df_amount = 20, df_notes = None\<rparr>,
      \<lparr>df_id = 1, df_date = Some \<lparr>year = 2023, month = 1, day = 10\<rparr>,
       df_category = ''Food'', df_amount = 7, df_notes = None\<rparr>]"

text \<open>
  The scenario with its second record dated \<^verbatim>\<open>2024-1-5\<close>, a table with the one
  record dated \<^verbatim>\<open>2024-01- 5\<close> and the frame with that record undated, and a table
  with a negative and a zero amount.
\<close>

definition short_date_db :: database where
  "short_date_db =
     \<lparr>expenses =
        [\<lparr>exp_id = 1, exp_date = ''2024-01-15'', exp_category = ''Food'', exp_amount = 20,
          exp_notes = None\<rparr>,
         \<lparr>exp_id = 2, exp_date = ''2024-1-5'', exp_category = ''Food'', exp_amount = 30,
          exp_notes = None\<rparr>,
         \<lparr>exp_id = 3, exp_date = ''2024-02-01'', exp_category = ''Travel'', exp_amount = 100,
          exp_notes = None\<rparr>],
      sqlite_sequence = 3\<rparr>"

definition blank_day_db :: database where
  "blank_day_db =
     \<lparr>expenses =
        [\<lparr>exp_id = 1, exp_date = ''2024-01- 5'', exp_category = ''Misc'', exp_amount = 4,
          exp_notes = None\<rparr>],
      sqlite_sequence = 1\<rparr>"

definition undated_frame :: "df_row list" where
  "undated_frame =
     [\<lparr>df_id = 1, df_date = None, df_category = ''Misc'', df_amount = 4, df_notes = None\<rparr>]"

definition refund_db :: database where
  "refund_db =
     \<lparr>expenses =
        [\<lparr>exp_id = 1, exp_date = ''2024-03-01'', exp_category = ''Food'', exp_amount = 12,
          exp_notes = None\<rparr>,
         \<lparr>exp_id = 2, exp_date = ''2024-03-02'', exp_category = ''Refund'', exp_amount = - 5,
          exp_notes = None\<rparr>,
         \<lparr>exp_id = 3, exp_date = ''2024-03-03'', exp_category = ''Gift'', exp_amount = 0,
          exp_notes = None\<rparr>],
      sqlite_sequence = 3\<rparr>"

subsection \<open>Dates\<close>

text \<open>
  A date of the calendar, as \<^verbatim>\<open>datetime\<close> has them: years 1 to 9999. \<open>date_key\<close>
  orders dates in time. A text is in strict form when it is the \<^verbatim>\<open>YYYY-MM-DD\<close>
  text of the date that \<^verbatim>\<open>strptime\<close> reads it as; these are the \<^verbatim>\<open>YYYY-MM-DD\<close>
  texts of the dates of the calendar (lemma \<open>strict_form_iff\<close>).
\<close>

definition valid_date :: "pydate \<Rightarrow> bool" where
  "valid_date d =
     (1 \<le> year d \<and> year d \<le> 9999 \<and> 1 \<le> month d \<and> month d \<le> 12
      \<and> 1 \<le> day d \<and> day d \<le> days_in_month (year d) (month d))"

definition date_key :: "pydate \<Rightarrow> nat \<times> nat \<times> nat" where
  "date_key d = (year d, month d, day d)"

definition strict_form :: "string \<Rightarrow> bool" where
  "strict_form s = (case strptime s of Inl e \<Rightarrow> False | Inr d \<Rightarrow> strftime_Ymd d = s)"

text \<open>
  One conversion, for the examples: it reads the texts in strict form as their dates
  and no date off any other text.
\<close>

definition strict_dates :: conversion where
  "strict_dates col s =
     (case strptime s of Inl e \<Rightarrow> None | Inr d \<Rightarrow> if strftime_Ymd d = s then Some d else None)"

subsection \<open>Aggregates and export\<close>

text \<open>
  The year and month of a row, the months that occur in a frame, the sum of a category
  and of a month, and texts of the shapes \<^verbatim>\<open>YYYY-MM\<close> and \<^verbatim>\<open>YYYY-MM-DD\<close>: digits and
  hyphens. \<open>names_month s p\<close>: the text \<open>s\<close> is \<^verbatim>\<open>YYYY-MM\<close> with the digits of
  the year and the month of \<open>p\<close>.
\<close>

definition year_month :: "df_row \<Rightarrow> (nat \<times> nat) option" where
  "year_month r = (case df_date r of None \<Rightarrow> None | Some d \<Rightarrow> Some (year d, month d))"

definition months :: "df_row list \<Rightarrow> (nat \<times> nat) set" where
  "months df = set (List.map_filter year_month df)"

definition month_sum :: "df_row list \<Rightarrow> nat \<times> nat \<Rightarrow> real" where
  "month_sum df p = sum_list (map df_amount (filter (\<lambda>r. year_month r = Some p) df))"

definition category_sum :: "df_row list \<Rightarrow> string \<Rightarrow> real" where
  "category_sum df c = sum_list (map df_amount (filter (\<lambda>r. df_category r = c) df))"

definition is_YYYY_MM :: "string \<Rightarrow> bool" where
  "is_YYYY_MM s =
     (case s of
        [a, b, c, d, h, e, f] \<Rightarrow>
          is_digit a \<and> is_digit b \<and> is_digit c \<and> is_digit d \<and> h = CHR ''-''
          \<and> is_digit e \<and> is_digit f
      | _ \<Rightarrow> False)"

definition names_month :: "string \<Rightarrow> nat \<times> nat \<Rightarrow> bool" where
  "names_month s p =
     (case s of
        [a, b, c, d, h, e, f] \<Rightarrow>
          is_YYYY_MM s
          \<and> 1000 * digit_val a + 100 * digit_val b + 10 * digit_val c + digit_val d = fst p
          \<and> 10 * digit_val e + digit_val f = snd p
      | _ \<Rightarrow> False)"


text \<open>The error that \<^verbatim>\<open>add_expense\<close> raises for a date it does not accept.\<close>

definition date_error :: py_error where
  "date_error = ValueError ''Date must be in YYYY-MM-DD format.''"

section \<open>Lemmas\<close>

subsection \<open>The order of the rows\<close>

lemma precedes_total: "precedes a b \<or> precedes b a"
  by (auto simp: precedes_def)

lemma precedes_trans: "precedes a b \<Longrightarrow> precedes b c \<Longrightarrow> precedes a c"
  by (auto simp: precedes_def)

lemma set_insert_row: "set (insert_row x ys) = insert x (set ys)"
  by (induction ys) auto

lemma mset_insert_row: "mset (insert_row x ys) = add_mset x (mset ys)"
  by (induction ys) auto

lemma mset_order_by: "mset (order_by_date_id_desc rs) = mset rs"
  by (induction rs) (simp_all add: order_by_date_id_desc_def mset_insert_row)

lemma set_order_by: "set (order_by_date_id_desc rs) = set rs"
  by (induction rs) (simp_all add: order_by_date_id_desc_def set_insert_row)

lemma sorted_insert_row:
  "sorted_wrt precedes ys \<Longrightarrow> sorted_wrt precedes (insert_row x ys)"
proof (induction ys)
  case Nil
  then show ?case by simp
next
  case (Cons y ys)
  show ?case
  proof (cases "precedes x y")
    case True
    with Cons.prems show ?thesis
      by (auto intro: precedes_trans)
  next
    case False
    then have "precedes y x" using precedes_total by blast
    with Cons False show ?thesis
      by (auto simp: set_insert_row)
  qed
qed

lemma sorted_order_by: "sorted_wrt precedes (order_by_date_id_desc rs)"
  by (induction rs) (simp_all add: order_by_date_id_desc_def sorted_insert_row)

lemma insert_row_first:
  "\<forall>y \<in> set ys. precedes x y \<Longrightarrow> insert_row x ys = x # ys"
  by (cases ys) auto

lemma filter_insert_row:
  "sorted_wrt precedes ys \<Longrightarrow>
   filter P (insert_row x ys) = (if P x then insert_row x (filter P ys) else filter P ys)"
proof (induction ys)
  case Nil
  then show ?case by simp
next
  case (Cons y ys)
  show ?case
  proof (cases "precedes x y")
    case True
    with Cons.prems have "\<forall>z \<in> set (filter P ys). precedes x z"
      by (auto intro: precedes_trans)
    then have "insert_row x (filter P ys) = x # filter P ys"
      by (rule insert_row_first)
    with True show ?thesis by simp
  next
    case False
    with Cons show ?thesis by simp
  qed
qed

lemma filter_order_by:
  "filter P (order_by_date_id_desc rs) = order_by_date_id_desc (filter P rs)"
proof (induction rs)
  case Nil
  then show ?case by (simp add: order_by_date_id_desc_def)
next
  case (Cons r rs)
  have "sorted_wrt precedes (foldr insert_row rs [])"
    using sorted_order_by [of rs] by (simp add: order_by_date_id_desc_def)
  with Cons show ?case
    by (simp add: order_by_date_id_desc_def filter_insert_row)
qed

subsection \<open>Reading the table and searching it\<close>

lemma df_fields_read_sql_query:
  "map df_fields (read_sql_query to_datetime rs) = map exp_fields rs"
  by (simp add: read_sql_query_def df_fields_def exp_fields_def)

lemma df_amount_read_sql_query:
  "map df_amount (read_sql_query to_datetime rs) = map exp_amount rs"
  by (simp add: read_sql_query_def)

lemma fetch_all_scenario: "fetch_all strict_dates scenario_db = scenario_frame"
  by code_simp

lemma search_expenses_eq:
  "search_expenses to_datetime db sd ed c mn mx =
   read_sql_query to_datetime
     (filter (\<lambda>r. list_all (\<lambda>c. holds c r) (build_query sd ed c mn mx))
       (order_by_date_id_desc (expenses db)))"
  by (simp add: search_expenses_def filter_order_by)

subsection \<open>Sums of groups\<close>

lemma sum_list_delta:
  "distinct ks \<Longrightarrow>
   sum_list (map (\<lambda>k. if a = k then (v::real) else 0) ks) = (if a \<in> set ks then v else 0)"
  by (induction ks) auto

lemma sum_list_groups:
  fixes val :: "'r \<Rightarrow> real"
  shows "distinct ks \<Longrightarrow>
   sum_list (map (\<lambda>k. sum_list (map val (filter (\<lambda>r. key r = k) xs))) ks)
     = sum_list (map val (filter (\<lambda>r. key r \<in> set ks) xs))"
proof (induction xs)
  case Nil
  then show ?case by simp
next
  case (Cons x xs)
  have "sum_list (map (\<lambda>k. sum_list (map val (filter (\<lambda>r. key r = k) (x # xs)))) ks)
      = sum_list (map (\<lambda>k. (if key x = k then val x else 0)
                            + sum_list (map val (filter (\<lambda>r. key r = k) xs))) ks)"
    by (intro arg_cong [where f = sum_list] map_cong) auto
  also have "\<dots> = sum_list (map (\<lambda>k. if key x = k then val x else 0) ks)
                  + sum_list (map (\<lambda>k. sum_list (map val (filter (\<lambda>r. key r = k) xs))) ks)"
    by (simp add: sum_list_addf)
  also have "\<dots> = (if key x \<in> set ks then val x else 0)
                  + sum_list (map val (filter (\<lambda>r. key r \<in> set ks) xs))"
    using Cons by (simp add: sum_list_delta)
  finally show ?case by simp
qed

lemma sum_groupby_sum:
  "sum_list (map snd (groupby_sum key val df)) = sum_list (map val df)"
proof -
  have "sum_list (map snd (groupby_sum key val df))
      = sum_list (map (\<lambda>k. sum_list (map val (filter (\<lambda>r. key r = k) df)))
          (sort (remdups (map key df))))"
    by (simp add: groupby_sum_def o_def)
  also have "\<dots> = sum_list (map val (filter (\<lambda>r. key r \<in> set (sort (remdups (map key df)))) df))"
    by (rule sum_list_groups) simp
  also have "\<dots> = sum_list (map val df)"
    by (simp cong: filter_cong)
  finally show ?thesis .
qed

lemma set_map_filter_key: "set (List.map_filter key df) = {k. \<exists>r \<in> set df. key r = Some k}"
  by (auto simp: map_filter_def image_iff) (metis option.sel)

lemma sum_groupby_sum_dropna:
  "sum_list (map snd (groupby_sum_dropna key val df))
     = sum_list (map val (filter (\<lambda>r. key r \<noteq> None) df))"
proof -
  let ?ks = "sort (remdups (List.map_filter key df))"
  have "sum_list (map snd (groupby_sum_dropna key val df))
      = sum_list (map (\<lambda>k. sum_list (map val (filter (\<lambda>r. (\<lambda>r. key r) r = Some k) df))) ?ks)"
    by (simp add: groupby_sum_dropna_def o_def)
  also have "\<dots> = sum_list (map (\<lambda>k. sum_list (map val (filter (\<lambda>r. key r = k) df))) (map Some ?ks))"
    by (simp add: o_def)
  also have "\<dots> = sum_list (map val (filter (\<lambda>r. key r \<in> set (map Some ?ks)) df))"
    by (rule sum_list_groups) (simp add: distinct_map)
  also have "\<dots> = sum_list (map val (filter (\<lambda>r. key r \<noteq> None) df))"
    by (intro arg_cong [where f = sum_list] arg_cong [where f = "map val"] filter_cong)
       (auto simp: set_map_filter_key)
  finally show ?thesis .
qed

lemma mset_insert_value: "mset (insert_value x ys) = add_mset x (mset ys)"
  by (induction ys) auto

lemma mset_sort_values_desc: "mset (sort_values_desc s) = mset s"
  by (induction s) (simp_all add: sort_values_desc_def mset_insert_value)

lemma sum_list_mset_cong:
  fixes f :: "'a \<Rightarrow> real"
  shows "mset xs = mset ys \<Longrightarrow> sum_list (map f xs) = sum_list (map f ys)"
  by (metis mset_map sum_mset_sum_list)

lemma sum_spending_by_category:
  "sum_list (map snd (spending_by_category df)) = total_spending df"
  by (simp add: spending_by_category_def total_spending_def sum_groupby_sum
        sum_list_mset_cong [OF mset_sort_values_desc])

lemma map_snd_period: "map snd (map (\<lambda>(p, s). (period_str p, s)) xs) = map snd xs"
  by (induction xs) auto

lemma sum_monthly_trend:
  "sum_list (map snd (monthly_trend df))
     = total_spending (filter (\<lambda>r. df_date r \<noteq> None) df)"
proof -
  have "sum_list (map snd (monthly_trend df))
      = sum_list (map snd (sort_key fst
          (groupby_sum_dropna (\<lambda>r. map_option to_period_M (df_date r)) df_amount df)))"
    by (simp add: monthly_trend_def map_snd_period del: map_map)
  also have "\<dots> = sum_list (map snd
          (groupby_sum_dropna (\<lambda>r. map_option to_period_M (df_date r)) df_amount df))"
    by (rule sum_list_mset_cong) simp
  finally show ?thesis
    by (simp add: sum_groupby_sum_dropna total_spending_def)
qed

subsection \<open>Digits and padded numbers\<close>

lemma is_digit_cases:
  "is_digit c \<longleftrightarrow> c = CHR ''0'' \<or> c = CHR ''1'' \<or> c = CHR ''2'' \<or> c = CHR ''3'' \<or> c = CHR ''4''
     \<or> c = CHR ''5'' \<or> c = CHR ''6'' \<or> c = CHR ''7'' \<or> c = CHR ''8'' \<or> c = CHR ''9''"
  by (simp add: is_digit_def)

lemma digit_val_bound: "is_digit c \<Longrightarrow> digit_val c \<le> 9"
  by (auto simp: is_digit_cases digit_val_def)

lemma nonzero_digit_val: "is_nonzero_digit c \<Longrightarrow> 1 \<le> digit_val c \<and> digit_val c \<le> 9"
  by (auto simp: is_nonzero_digit_def digit_val_def)

lemma nat_less_10_cases: "(n::nat) < 10 \<Longrightarrow> n \<in> {0, 1, 2, 3, 4, 5, 6, 7, 8, 9}"
  by auto

lemma of_char_digit_char: "n < 10 \<Longrightarrow> (of_char (digit_char n) :: nat) = 48 + n"
  by (drule nat_less_10_cases) (auto simp: digit_char_def)

lemma is_digit_digit_char: "is_digit (digit_char n)"
  unfolding is_digit_def digit_char_def by (rule nth_mem) simp

lemma digit_char_mod: "digit_char (n mod 10) = digit_char n"
  by (simp add: digit_char_def)

lemma digit_char_less: "a < 10 \<Longrightarrow> b < 10 \<Longrightarrow> digit_char a < digit_char b \<longleftrightarrow> a < b"
  by (simp add: less_char_def of_char_digit_char)

lemma digit_char_eq: "a < 10 \<Longrightarrow> b < 10 \<Longrightarrow> digit_char a = digit_char b \<longleftrightarrow> a = b"
  by (metis of_char_digit_char add_left_cancel)

lemma digit_char_less_iff: "digit_char a < digit_char b \<longleftrightarrow> a mod 10 < b mod 10"
  using digit_char_less [of "a mod 10" "b mod 10"] by (simp add: digit_char_mod)

lemma digit_char_eq_iff: "digit_char a = digit_char b \<longleftrightarrow> a mod 10 = b mod 10"
  using digit_char_eq [of "a mod 10" "b mod 10"] by (simp add: digit_char_mod)

lemma two_digit_less:
  fixes a1 a0 b1 b0 :: nat
  shows "a0 < 10 \<Longrightarrow> b0 < 10 \<Longrightarrow>
    (a1 < b1 \<or> (a1 = b1 \<and> a0 < b0)) \<longleftrightarrow> 10 * a1 + a0 < 10 * b1 + b0"
  by arith

lemma two_digit_eq:
  fixes a1 a0 b1 b0 :: nat
  shows "a0 < 10 \<Longrightarrow> b0 < 10 \<Longrightarrow>
    (a1 = b1 \<and> a0 = b0) \<longleftrightarrow> 10 * a1 + a0 = 10 * b1 + b0"
proof
  assume "a1 = b1 \<and> a0 = b0"
  then show "10 * a1 + a0 = 10 * b1 + b0" by simp
next
  assume a: "a0 < 10" and b: "b0 < 10" and e: "10 * a1 + a0 = 10 * b1 + b0"
  from a b e have "a1 = b1" by linarith
  with e show "a1 = b1 \<and> a0 = b0" by simp
qed

lemma pad2_less: "a < 100 \<Longrightarrow> b < 100 \<Longrightarrow> pad2 a < pad2 b \<longleftrightarrow> a < b"
proof -
  assume a: "a < 100" and b: "b < 100"
  then have d: "a div 10 mod 10 = a div 10" "b div 10 mod 10 = b div 10"
    by simp_all
  have "pad2 a < pad2 b \<longleftrightarrow>
        a div 10 < b div 10 \<or> (a div 10 = b div 10 \<and> a mod 10 < b mod 10)"
    by (simp add: pad2_def digit_char_less_iff digit_char_eq_iff d)
  also have "\<dots> \<longleftrightarrow> 10 * (a div 10) + a mod 10 < 10 * (b div 10) + b mod 10"
    by (rule two_digit_less) simp_all
  also have "\<dots> \<longleftrightarrow> a < b"
    by simp
  finally show ?thesis .
qed

lemma pad2_eq: "a < 100 \<Longrightarrow> b < 100 \<Longrightarrow> pad2 a = pad2 b \<longleftrightarrow> a = b"
proof -
  assume a: "a < 100" and b: "b < 100"
  then have d: "a div 10 mod 10 = a div 10" "b div 10 mod 10 = b div 10"
    by simp_all
  have "pad2 a = pad2 b \<longleftrightarrow> a div 10 = b div 10 \<and> a mod 10 = b mod 10"
    by (simp add: pad2_def digit_char_eq_iff d)
  also have "\<dots> \<longleftrightarrow> 10 * (a div 10) + a mod 10 = 10 * (b div 10) + b mod 10"
    by (rule two_digit_eq) simp_all
  also have "\<dots> \<longleftrightarrow> a = b"
    by simp
  finally show ?thesis .
qed

lemma pad4_pad2: "pad4 n = pad2 (n div 100) @ pad2 (n mod 100)"
proof -
  have 1: "n div 100 div 10 = n div 1000"
    by (simp add: div_mult2_eq)
  have "n mod 100 = 10 * (n div 10 mod 10) + n mod 10"
    using mod_mult2_eq [of n 10 10] by simp
  then have 2: "n mod 100 div 10 = n div 10 mod 10"
    by simp
  have 3: "n mod 100 mod 10 = n mod 10"
    by (simp add: mod_mod_cancel)
  have 4: "digit_char (n div 10 mod 10) = digit_char (n div 10)"
    by (rule digit_char_mod)
  have 5: "digit_char (n mod 100) = digit_char n"
    using 3 by (simp add: digit_char_eq_iff)
  show ?thesis
    by (simp add: pad4_def pad2_def 1 2 4 5)
qed

lemma append_less_same_length:
  fixes xs :: "'a::linorder list"
  shows "length xs = length xs' \<Longrightarrow> xs @ ys < xs' @ ys' \<longleftrightarrow> xs < xs' \<or> (xs = xs' \<and> ys < ys')"
  by (induction xs xs' rule: list_induct2) auto

lemma length_pad2: "length (pad2 n) = 2"
  by (simp add: pad2_def)

lemma length_pad4: "length (pad4 n) = 4"
  by (simp add: pad4_def)

lemma hundreds_less:
  fixes a1 a0 b1 b0 :: nat
  shows "a0 < 100 \<Longrightarrow> b0 < 100 \<Longrightarrow>
    (a1 < b1 \<or> (a1 = b1 \<and> a0 < b0)) \<longleftrightarrow> 100 * a1 + a0 < 100 * b1 + b0"
  by arith

lemma hundreds_eq:
  fixes a1 a0 b1 b0 :: nat
  shows "a0 < 100 \<Longrightarrow> b0 < 100 \<Longrightarrow>
    (a1 = b1 \<and> a0 = b0) \<longleftrightarrow> 100 * a1 + a0 = 100 * b1 + b0"
proof
  assume "a1 = b1 \<and> a0 = b0"
  then show "100 * a1 + a0 = 100 * b1 + b0" by simp
next
  assume a: "a0 < 100" and b: "b0 < 100" and e: "100 * a1 + a0 = 100 * b1 + b0"
  from a b e have "a1 = b1" by linarith
  with e show "a1 = b1 \<and> a0 = b0" by simp
qed

lemma pad4_less: "a < 10000 \<Longrightarrow> b < 10000 \<Longrightarrow> pad4 a < pad4 b \<longleftrightarrow> a < b"
proof -
  assume a: "a < 10000" and b: "b < 10000"
  then have h: "a div 100 < 100" "b div 100 < 100" "a mod 100 < 100" "b mod 100 < 100"
    by simp_all
  have "pad4 a < pad4 b \<longleftrightarrow>
        a div 100 < b div 100 \<or> (a div 100 = b div 100 \<and> a mod 100 < b mod 100)"
    by (simp add: pad4_pad2 append_less_same_length length_pad2 pad2_less pad2_eq h)
  also have "\<dots> \<longleftrightarrow> 100 * (a div 100) + a mod 100 < 100 * (b div 100) + b mod 100"
    by (rule hundreds_less) simp_all
  also have "\<dots> \<longleftrightarrow> a < b"
    by simp
  finally show ?thesis .
qed

lemma pad4_eq: "a < 10000 \<Longrightarrow> b < 10000 \<Longrightarrow> pad4 a = pad4 b \<longleftrightarrow> a = b"
proof -
  assume a: "a < 10000" and b: "b < 10000"
  then have h: "a div 100 < 100" "b div 100 < 100" "a mod 100 < 100" "b mod 100 < 100"
    by simp_all
  have "pad4 a = pad4 b \<longleftrightarrow> a div 100 = b div 100 \<and> a mod 100 = b mod 100"
    by (simp add: pad4_pad2 length_pad2 pad2_eq h)
  also have "\<dots> \<longleftrightarrow> 100 * (a div 100) + a mod 100 = 100 * (b div 100) + b mod 100"
    by (rule hundreds_eq) simp_all
  also have "\<dots> \<longleftrightarrow> a = b"
    by simp
  finally show ?thesis .
qed

subsection \<open>Dates read and written\<close>

lemma days_in_month_le: "days_in_month y m \<le> 31"
  by (simp add: days_in_month_def)

lemma period_str_less:
  "y < 10000 \<Longrightarrow> y' < 10000 \<Longrightarrow> m < 100 \<Longrightarrow> m' < 100 \<Longrightarrow>
   period_str (y, m) < period_str (y', m') \<longleftrightarrow> (y, m) < (y', m')"
  by (auto simp: period_str_def append_less_same_length length_pad4 pad4_less pad4_eq pad2_less)

lemma strftime_Ymd_less:
  assumes "valid_date d" "valid_date e"
  shows "strftime_Ymd d < strftime_Ymd e \<longleftrightarrow> date_key d < date_key e"
proof -
  have b: "year d < 10000" "year e < 10000" "month d < 100" "month e < 100"
    "day d < 100" "day e < 100"
    using assms days_in_month_le [of "year d" "month d"] days_in_month_le [of "year e" "month e"]
    by (simp_all add: valid_date_def)
  have "strftime_Ymd d < strftime_Ymd e \<longleftrightarrow>
      pad4 (year d) < pad4 (year e)
      \<or> (pad4 (year d) = pad4 (year e)
          \<and> (pad2 (month d) < pad2 (month e)
              \<or> (pad2 (month d) = pad2 (month e) \<and> pad2 (day d) < pad2 (day e))))"
    by (simp add: strftime_Ymd_def append_less_same_length length_pad4 length_pad2)
  also have "\<dots> \<longleftrightarrow> date_key d < date_key e"
    using b by (auto simp: pad4_less pad4_eq pad2_less pad2_eq date_key_def)
  finally show ?thesis .
qed

lemma strftime_Ymd_eq:
  assumes "valid_date d" "valid_date e"
  shows "strftime_Ymd d = strftime_Ymd e \<longleftrightarrow> date_key d = date_key e"
proof -
  have b: "year d < 10000" "year e < 10000" "month d < 100" "month e < 100"
    "day d < 100" "day e < 100"
    using assms days_in_month_le [of "year d" "month d"] days_in_month_le [of "year e" "month e"]
    by (simp_all add: valid_date_def)
  have "strftime_Ymd d = strftime_Ymd e \<longleftrightarrow>
      pad4 (year d) = pad4 (year e) \<and> pad2 (month d) = pad2 (month e)
      \<and> pad2 (day d) = pad2 (day e)"
    by (simp add: strftime_Ymd_def length_pad4 length_pad2)
  also have "\<dots> \<longleftrightarrow> date_key d = date_key e"
    using b by (simp add: pad4_eq pad2_eq date_key_def)
  finally show ?thesis .
qed

lemma two_chars_elim:
  "(v, r) \<in> set (two_chars p q f s) \<Longrightarrow> \<exists>a b. s = a # b # r \<and> p a \<and> q b \<and> v = f a b"
  by (induction p q f s rule: two_chars.induct) (auto split: if_splits)

lemma one_char_elim:
  "(v, r) \<in> set (one_char p s) \<Longrightarrow> \<exists>a. s = a # r \<and> p a \<and> v = digit_val a"
  by (induction p s rule: one_char.induct) (auto split: if_splits)

lemma re_Y_bound: "(y, r) \<in> set (re_Y s) \<Longrightarrow> y \<le> 9999"
proof (induction s rule: re_Y.induct)
  case (1 a b c d rest)
  then have "is_digit a" "is_digit b" "is_digit c" "is_digit d"
    and y: "y = 1000 * digit_val a + 100 * digit_val b + 10 * digit_val c + digit_val d"
    by (auto split: if_splits)
  then have "digit_val a \<le> 9" "digit_val b \<le> 9" "digit_val c \<le> 9" "digit_val d \<le> 9"
    by (simp_all add: digit_val_bound)
  with y show ?case by linarith
qed simp_all

lemma re_m_bound: "(m, r) \<in> set (re_m s) \<Longrightarrow> 1 \<le> m \<and> m \<le> 12"
  by (auto simp: re_m_def two_digits_def digit_val_def is_nonzero_digit_def
        dest!: two_chars_elim one_char_elim)

lemma re_d_bound: "(d, r) \<in> set (re_d s) \<Longrightarrow> 1 \<le> d"
  by (auto simp: re_d_def two_digits_def digit_val_def is_nonzero_digit_def
        dest!: two_chars_elim one_char_elim)

lemma format_regex_match_bounds:
  assumes "format_regex_match s = Some (y, m, d, rest)"
  shows "y \<le> 9999 \<and> 1 \<le> m \<and> m \<le> 12 \<and> 1 \<le> d"
proof -
  let ?L = "concat (map (\<lambda>(y, s1).
             concat (map (\<lambda>s2.
               concat (map (\<lambda>(m, s3).
                 concat (map (\<lambda>s4.
                   map (\<lambda>(d, s5). (y, m, d, s5)) (re_d s4))
                 (literal CHR ''-'' s3)))
               (re_m s2)))
             (literal CHR ''-'' s1)))
           (re_Y s))"
  from assms obtain others where "?L = (y, m, d, rest) # others"
    unfolding format_regex_match_def by (cases ?L) simp_all
  then have "(y, m, d, rest) \<in> set ?L"
    by (metis list.set_intros(1))
  then obtain s1 s2 s3 s4 where "(y, s1) \<in> set (re_Y s)" "(m, s3) \<in> set (re_m s2)"
    "(d, rest) \<in> set (re_d s4)"
    by auto
  then show ?thesis
    using re_Y_bound re_m_bound re_d_bound by blast
qed

lemma strptime_valid: "strptime s = Inr d \<Longrightarrow> valid_date d"
  by (auto simp: strptime_def valid_date_def
        split: option.splits if_splits dest!: format_regex_match_bounds)

subsection \<open>A date written and read again\<close>

lemma digit_val_digit_char: "digit_val (digit_char k) = k mod 10"
proof -
  have "(of_char (digit_char (k mod 10)) :: nat) = 48 + k mod 10"
    by (rule of_char_digit_char) simp
  then show ?thesis
    by (simp add: digit_val_def digit_char_mod)
qed

lemma two_digits_pad2:
  "k < 100 \<Longrightarrow> two_digits (digit_char (k div 10)) (digit_char k) = k"
  by (simp add: two_digits_def digit_val_digit_char)

lemma re_Y_pad4: "y < 10000 \<Longrightarrow> re_Y (pad4 y @ rest) = [(y, rest)]"
proof -
  assume y: "y < 10000"
  then have h: "y div 100 < 100" "y mod 100 < 100"
    by simp_all
  have "pad4 y = [digit_char (y div 100 div 10), digit_char (y div 100),
                  digit_char (y mod 100 div 10), digit_char (y mod 100)]"
    by (simp add: pad4_pad2 pad2_def)
  moreover have "1000 * digit_val (digit_char (y div 100 div 10))
      + 100 * digit_val (digit_char (y div 100))
      + 10 * digit_val (digit_char (y mod 100 div 10))
      + digit_val (digit_char (y mod 100)) = y"
  proof -
    have a: "10 * (y div 100 div 10 mod 10) + y div 100 mod 10 = y div 100"
      using h(1) by simp
    have b: "10 * (y mod 100 div 10 mod 10) + y mod 100 mod 10 = y mod 100"
      using h(2) by simp
    have "1000 * (y div 100 div 10 mod 10) + 100 * (y div 100 mod 10)
        + 10 * (y mod 100 div 10 mod 10) + y mod 100 mod 10
        = 100 * (10 * (y div 100 div 10 mod 10) + y div 100 mod 10)
          + (10 * (y mod 100 div 10 mod 10) + y mod 100 mod 10)"
      by simp
    also have "\<dots> = 100 * (y div 100) + y mod 100"
      by (simp only: a b)
    also have "\<dots> = y"
      by simp
    finally show ?thesis
      by (simp only: digit_val_digit_char)
  qed
  ultimately show ?thesis
    by (simp add: is_digit_digit_char)
qed

lemma month_cases: "1 \<le> m \<Longrightarrow> m \<le> 12 \<Longrightarrow> (m::nat) \<in> {1, 2, 3, 4, 5, 6, 7, 8, 9, 10, 11, 12}"
  by (simp, arith)

lemma re_m_pad2:
  assumes "1 \<le> m" "m \<le> 12"
  shows "concat (map (\<lambda>(m', s3). concat (map (G m') (literal CHR ''-'' s3)))
           (re_m (pad2 m @ CHR ''-'' # t))) = G m t"
  using month_cases [OF assms]
  apply (elim insertE emptyE)
  apply (simp_all add: re_m_def pad2_def digit_char_def two_digits_def digit_val_def
        is_nonzero_digit_def)
  apply (simp add: numeral_2_eq_2)
  done

lemma day_cases:
  "1 \<le> d \<Longrightarrow> d \<le> 31 \<Longrightarrow>
   (d::nat) \<in> {1, 2, 3, 4, 5, 6, 7, 8, 9, 10, 11, 12, 13, 14, 15, 16, 17, 18, 19, 20,
               21, 22, 23, 24, 25, 26, 27, 28, 29, 30, 31}"
  by (simp, arith)

lemma re_d_pad2:
  assumes "1 \<le> d" "d \<le> 31"
  shows "hd (re_d (pad2 d)) = (d, []) \<and> re_d (pad2 d) \<noteq> []"
  using day_cases [OF assms]
  by (elim insertE emptyE)
     (simp_all add: re_d_def pad2_def digit_char_def two_digits_def digit_val_def
        is_nonzero_digit_def is_digit_def)

lemma format_regex_match_strftime:
  assumes "valid_date d"
  shows "format_regex_match (strftime_Ymd d) = Some (year d, month d, day d, [])"
proof -
  have y: "year d < 10000" and m: "1 \<le> month d" "month d \<le> 12"
    and dd: "1 \<le> day d" "day d \<le> 31"
    using assms days_in_month_le [of "year d" "month d"] by (simp_all add: valid_date_def)
  from re_d_pad2 [OF dd] obtain others where r: "re_d (pad2 (day d)) = (day d, []) # others"
    by (cases "re_d (pad2 (day d))") auto
  have s: "strftime_Ymd d = pad4 (year d) @ CHR ''-'' # pad2 (month d) @ CHR ''-'' # pad2 (day d)"
    by (simp add: strftime_Ymd_def)
  show ?thesis
    unfolding format_regex_match_def s
    by (simp add: re_Y_pad4 [OF y] re_m_pad2 [OF m] r)
qed

lemma strptime_strftime: "valid_date d \<Longrightarrow> strptime (strftime_Ymd d) = Inr d"
  by (simp add: strptime_def format_regex_match_strftime valid_date_def)

lemma strict_form_iff: "strict_form s \<longleftrightarrow> (\<exists>d. valid_date d \<and> s = strftime_Ymd d)"
proof
  assume "strict_form s"
  then obtain d where "strptime s = Inr d" "strftime_Ymd d = s"
    by (auto simp: strict_form_def split: sum.splits)
  then show "\<exists>d. valid_date d \<and> s = strftime_Ymd d"
    using strptime_valid by blast
next
  assume "\<exists>d. valid_date d \<and> s = strftime_Ymd d"
  then show "strict_form s"
    by (auto simp: strict_form_def strptime_strftime)
qed

lemma names_month_period_str:
  assumes "fst p < 10000" "snd p < 100"
  shows "names_month (period_str p) p"
proof -
  have "re_Y (pad4 (fst p) @ []) = [(fst p, [])]"
    using assms(1) by (rule re_Y_pad4)
  then have y: "1000 * digit_val (digit_char (fst p div 1000))
      + 100 * digit_val (digit_char (fst p div 100))
      + 10 * digit_val (digit_char (fst p div 10)) + digit_val (digit_char (fst p)) = fst p"
    by (simp add: pad4_def is_digit_digit_char)
  have m: "10 * digit_val (digit_char (snd p div 10)) + digit_val (digit_char (snd p)) = snd p"
    using two_digits_pad2 [OF assms(2)] by (simp add: two_digits_def)
  show ?thesis
    using y m
    by (simp add: names_month_def is_YYYY_MM_def period_str_def pad4_def pad2_def
          is_digit_digit_char)
qed

lemma add_expense_strict_date:
  "valid_date d \<Longrightarrow>
   add_expense db (strftime_Ymd d) c a n =
     Inr (insert_expense db (strftime_Ymd d) (strip c) a (if n \<noteq> [] then Some (strip n) else None))"
  by (simp add: add_expense_def strptime_strftime)

subsection \<open>Aggregates in order\<close>

lemma sorted_insert_value:
  "sorted_wrt (\<lambda>a b. snd b \<le> snd a) ys \<Longrightarrow> sorted_wrt (\<lambda>a b. snd b \<le> snd a) (insert_value x ys)"
proof (induction ys)
  case Nil
  then show ?case by simp
next
  case (Cons y ys)
  have s: "set (insert_value x ys) = insert x (set ys)"
    by (metis mset_insert_value set_mset_mset set_mset_add_mset_insert)
  show ?case
  proof (cases "snd y \<le> snd x")
    case True
    with Cons.prems show ?thesis by auto
  next
    case False
    with Cons show ?thesis by (auto simp: s)
  qed
qed

lemma sorted_sort_values_desc: "sorted_wrt (\<lambda>a b. snd b \<le> snd a) (sort_values_desc s)"
  by (induction s) (simp_all add: sort_values_desc_def sorted_insert_value)

lemma groupby_sum_eq:
  "groupby_sum df_category df_amount df =
     map (\<lambda>c. (c, category_sum df c)) (sorted_list_of_set (df_category ` set df))"
proof -
  have "sorted_list_of_set (df_category ` set df) = sort (remdups (map df_category df))"
    using sorted_list_of_set_sort_remdups [of "map df_category df"] by simp
  then show ?thesis
    by (simp add: groupby_sum_def category_sum_def)
qed

lemma year_month_eq: "map_option to_period_M (df_date r) = year_month r"
  by (cases "df_date r") (simp_all add: year_month_def to_period_M_def)

lemma groupby_sum_dropna_eq:
  "groupby_sum_dropna (\<lambda>r. map_option to_period_M (df_date r)) df_amount df =
     map (\<lambda>p. (p, month_sum df p)) (sorted_list_of_set (months df))"
  by (simp add: groupby_sum_dropna_def month_sum_def months_def year_month_eq
        sorted_list_of_set_sort_remdups)

lemma monthly_trend_eq:
  "monthly_trend df =
     map (\<lambda>p. (period_str p, month_sum df p)) (sorted_list_of_set (months df))"
proof -
  let ?g = "map (\<lambda>p. (p, month_sum df p)) (sorted_list_of_set (months df))"
  have "map fst ?g = sorted_list_of_set (months df)"
    by (simp add: o_def)
  then have "sorted (map fst ?g)"
    by simp
  then have "sort_key fst ?g = ?g"
    by (rule sort_key_id_if_sorted)
  then show ?thesis
    by (simp add: monthly_trend_def groupby_sum_dropna_eq o_def)
qed

lemma is_YYYY_MM_period_str: "is_YYYY_MM (period_str p)"
  by (simp add: is_YYYY_MM_def period_str_def pad4_def pad2_def is_digit_digit_char)


lemma months_valid:
  assumes "\<forall>r \<in> set df. \<forall>d. df_date r = Some d \<longrightarrow> valid_date d" "p \<in> months df"
  shows "fst p < 10000 \<and> snd p < 100"
proof -
  from assms(2) obtain r where "r \<in> set df" "year_month r = Some p"
    by (auto simp: months_def set_map_filter_key)
  then obtain d where "r \<in> set df" "df_date r = Some d" "p = (year d, month d)"
    by (auto simp: year_month_def split: option.splits)
  with assms(1) show ?thesis
    by (auto simp: valid_date_def)
qed

lemma sorted_month_keys:
  assumes "\<forall>r \<in> set df. \<forall>d. df_date r = Some d \<longrightarrow> valid_date d"
  shows "sorted_wrt (<) (map fst (monthly_trend df))"
proof -
  let ?ps = "sorted_list_of_set (months df)"
  have "sorted_wrt (<) ?ps"
    by simp
  then have "sorted_wrt (\<lambda>p q. period_str p < period_str q) ?ps"
  proof (rule sorted_wrt_mono_rel [rotated])
    fix p q assume "p \<in> set ?ps" "q \<in> set ?ps" "p < q"
    then have "fst p < 10000 \<and> snd p < 100" "fst q < 10000 \<and> snd q < 100"
      using months_valid [OF assms] by (simp_all add: months_def)
    with \<open>p < q\<close> show "period_str p < period_str q"
      using period_str_less [of "fst p" "fst q" "snd p" "snd q"] by simp
  qed
  then show ?thesis
    by (simp add: monthly_trend_eq o_def sorted_wrt_map)
qed

lemma month_keys_named:
  assumes "\<forall>r \<in> set df. \<forall>d. df_date r = Some d \<longrightarrow> valid_date d"
  shows "list_all2 names_month (map fst (monthly_trend df)) (sorted_list_of_set (months df))"
proof -
  have "list_all2 names_month (map period_str (sorted_list_of_set (months df)))
          (sorted_list_of_set (months df))"
    using months_valid [OF assms]
    by (simp add: list_all2_map1 list_all2_same names_month_period_str months_def)
  then show ?thesis
    by (simp add: monthly_trend_eq o_def)
qed


subsection \<open>Adding an expense\<close>

lemma add_expense_date_examples:
  "add_expense db ''2024-13-01'' c a n = Inl date_error"
  "add_expense db ''2024-02-30'' c a n = Inl date_error"
  "add_expense db ''not-a-date'' c a n = Inl date_error"
  "add_expense db ''2023-02-29'' c a n = Inl date_error"
  "add_expense db ''2024-02-29'' c a n =
     Inr (insert_expense db ''2024-02-29'' (strip c) a (if n \<noteq> [] then Some (strip n) else None))"
proof -
  have "strptime ''2024-13-01'' = Inl (ValueError ''time data does not match format'')"
    by code_simp
  then show "add_expense db ''2024-13-01'' c a n = Inl date_error"
    by (simp add: add_expense_def date_error_def)
  have "strptime ''2024-02-30'' = Inl (ValueError ''day is out of range for month'')"
    by code_simp
  then show "add_expense db ''2024-02-30'' c a n = Inl date_error"
    by (simp add: add_expense_def date_error_def)
  have "strptime ''not-a-date'' = Inl (ValueError ''time data does not match format'')"
    by code_simp
  then show "add_expense db ''not-a-date'' c a n = Inl date_error"
    by (simp add: add_expense_def date_error_def)
  have "strptime ''2023-02-29'' = Inl (ValueError ''day is out of range for month'')"
    by code_simp
  then show "add_expense db ''2023-02-29'' c a n = Inl date_error"
    by (simp add: add_expense_def date_error_def)
  have "strptime ''2024-02-29'' = Inr \<lparr>year = 2024, month = 2, day = 29\<rparr>"
    by code_simp
  then show "add_expense db ''2024-02-29'' c a n =
     Inr (insert_expense db ''2024-02-29'' (strip c) a (if n \<noteq> [] then Some (strip n) else None))"
    by (simp add: add_expense_def)
qed

lemma last_dropWhile: "dropWhile P xs \<noteq> [] \<Longrightarrow> last (dropWhile P xs) = last xs"
  by (induction xs) (auto split: if_splits)

lemma strip_ends:
  assumes "strip s \<noteq> []"
  shows "\<not> is_space (hd (strip s)) \<and> \<not> is_space (last (strip s))"
proof -
  let ?u = "dropWhile is_space s"
  let ?v = "dropWhile is_space (rev ?u)"
  from assms have v: "?v \<noteq> []"
    by (simp add: strip_def)
  then have u: "?u \<noteq> []"
    by (metis dropWhile.simps(1) rev.simps(1))
  have "last (strip s) = hd ?v"
    using v by (simp add: strip_def last_rev)
  moreover have "\<not> is_space (hd ?v)"
    using v by (rule hd_dropWhile)
  moreover have "hd (strip s) = last ?v"
    using v by (simp add: strip_def hd_rev)
  moreover have "last ?v = hd ?u"
    using v u by (simp add: last_dropWhile last_rev)
  moreover have "\<not> is_space (hd ?u)"
    using u by (rule hd_dropWhile)
  ultimately show ?thesis
    by simp
qed

lemma strip_fixed:
  assumes "t \<noteq> []" "\<not> is_space (hd t)" "\<not> is_space (last t)"
  shows "strip t = t"
proof -
  from assms(1,2) have 1: "dropWhile is_space t = t"
    by (cases t) simp_all
  from assms(1,3) have 2: "dropWhile is_space (rev t) = rev t"
    by (cases "rev t") (simp_all add: hd_rev [symmetric])
  show ?thesis
    by (simp add: strip_def 1 2)
qed

lemma strip_strip: "strip (strip s) = strip s"
proof (cases "strip s = []")
  case True
  have "strip [] = []"
    by (simp add: strip_def)
  with True show ?thesis
    by (simp only:)
next
  case False
  then show ?thesis
    using strip_ends [of s] by (simp add: strip_fixed)
qed

lemma add_expense_Inr:
  "add_expense db d c a n = Inr db' \<Longrightarrow>
   \<exists>r. expenses db' = expenses db @ [r] \<and> exp_category r = strip c"
  by (auto simp: add_expense_def insert_expense_def split: sum.splits)

lemma prompt_add_blank_category:
  "strip l2 = [] \<Longrightarrow>
   prompt_add py_float today db (l1 # l2 # rest) =
     Inr (db, if lower (strip l1) = ''q'' then [add_banner]
              else [add_banner, ''Cancelled or invalid category.''])"
  by (simp add: prompt_add_def Let_def)

lemma prompt_add_stores:
  assumes "prompt_add py_float today db lines = Inr (db', out)"
  shows "db' = db \<or> (\<exists>r. expenses db' = expenses db @ [r] \<and> exp_category r \<noteq> [])"
  using assms unfolding prompt_add_def Let_def
  by (auto split: list.splits if_splits option.splits sum.splits
        dest!: add_expense_Inr simp: strip_strip)

section \<open>The claims\<close>

text \<open>
  C1. \<^verbatim>\<open>search_expenses\<close> is to return the records of \<^verbatim>\<open>fetch_all\<close> that satisfy
  every present constraint, the date bounds being inclusive bounds on the date. The
  dates are stored as the text that \<^verbatim>\<open>add_expense\<close> was given and the query compares
  that text. On the table made by three calls of \<^verbatim>\<open>add_expense\<close>, the second with
  the date \<^verbatim>\<open>2024-1-5\<close>, a search from \<^verbatim>\<open>2024-01-10\<close> on returns all three records,
  the first of them the record of 5 January 2024, which is before 10 January 2024.
\<close>

theorem search_expenses_short_date:
  "add_all init_db
     [(''2024-01-15'', ''Food'', 20, []), (''2024-1-5'', ''Food'', 30, []),
      (''2024-02-01'', ''Travel'', 100, [])] = Inr short_date_db
   \<and> map df_fields
         (search_expenses to_datetime short_date_db (Some ''2024-01-10'') None None None None)
       = [(2, ''Food'', 30, None), (3, ''Travel'', 100, None), (1, ''Food'', 20, None)]
   \<and> map exp_date (filter (\<lambda>r. exp_id r = 2) (expenses short_date_db)) = [''2024-1-5'']
   \<and> strptime ''2024-1-5'' = Inr \<lparr>year = 2024, month = 1, day = 5\<rparr>
   \<and> strptime ''2024-01-10'' = Inr \<lparr>year = 2024, month = 1, day = 10\<rparr>
   \<and> date_key \<lparr>year = 2024, month = 1, day = 5\<rparr> < date_key \<lparr>year = 2024, month = 1, day = 10\<rparr>"
proof -
  have 1: "add_all init_db
     [(''2024-01-15'', ''Food'', 20, []), (''2024-1-5'', ''Food'', 30, []),
      (''2024-02-01'', ''Travel'', 100, [])] = Inr short_date_db"
    by code_simp
  have "map exp_fields
          (filter (\<lambda>r. list_all (\<lambda>c. holds c r)
                     (build_query (Some ''2024-01-10'') None None None None))
             (order_by_date_id_desc (expenses short_date_db)))
        = [(2, ''Food'', 30, None), (3, ''Travel'', 100, None), (1, ''Food'', 20, None)]"
    by code_simp
  then have 2: "map df_fields
         (search_expenses to_datetime short_date_db (Some ''2024-01-10'') None None None None)
       = [(2, ''Food'', 30, None), (3, ''Travel'', 100, None), (1, ''Food'', 20, None)]"
    by (simp only: search_expenses_eq df_fields_read_sql_query)
  have 3: "map exp_date (filter (\<lambda>r. exp_id r = 2) (expenses short_date_db)) = [''2024-1-5'']"
    by (simp add: short_date_db_def)
  have 4: "strptime ''2024-1-5'' = Inr \<lparr>year = 2024, month = 1, day = 5\<rparr>"
    by code_simp
  have 5: "strptime ''2024-01-10'' = Inr \<lparr>year = 2024, month = 1, day = 10\<rparr>"
    by code_simp
  have 6: "date_key \<lparr>year = 2024, month = 1, day = 5\<rparr>
             < date_key \<lparr>year = 2024, month = 1, day = 10\<rparr>"
    by (simp add: date_key_def)
  from 1 2 3 4 5 6 show ?thesis
    by blast
qed

text \<open>
  C2. \<^verbatim>\<open>add_expense\<close> is to accept exactly the dates written \<^verbatim>\<open>YYYY-MM-DD\<close>. It
  accepts every such text of a calendar date (lemma \<open>add_expense_strict_date\<close>), rejects
  the four dates of the claim and accepts \<^verbatim>\<open>2024-02-29\<close> (lemma
  \<open>add_expense_date_examples\<close>), but \<^verbatim>\<open>strptime\<close> also reads a month or day of one
  digit: the date \<^verbatim>\<open>2024-1-5\<close>, which is not in the strict form, is accepted and
  stored as it was written.
\<close>

theorem add_expense_accepts_short_date:
  "add_expense init_db ''2024-1-5'' ''Food'' 20 [] =
     Inr \<lparr>expenses = [\<lparr>exp_id = 1, exp_date = ''2024-1-5'', exp_category = ''Food'',
                         exp_amount = 20, exp_notes = None\<rparr>],
          sqlite_sequence = 1\<rparr>
   \<and> \<not> strict_form ''2024-1-5''"
  by code_simp

text \<open>
  C3. The sums of \<^verbatim>\<open>spending_by_category\<close> and the sums of \<^verbatim>\<open>monthly_trend\<close> are each
  to add up to \<^verbatim>\<open>total_spending\<close>. The sums of the categories always do (lemma
  \<open>sum_spending_by_category\<close>); the sums of the months add up to the total of the rows
  that have a date (lemma \<open>sum_monthly_trend\<close>), because the grouping by month drops
  the rows whose date is \<^verbatim>\<open>NaT\<close> where the grouping by category keeps missing keys.
  \<^verbatim>\<open>add_expense\<close> accepts the date \<^verbatim>\<open>2024-01- 5\<close>; read without a date, as pandas reads
  it, the record is in the total and in the sum of its category and in no month.
\<close>

theorem monthly_trend_drops_undated:
  "add_all init_db [(''2024-01- 5'', ''Misc'', 4, [])] = Inr blank_day_db
   \<and> fetch_all strict_dates blank_day_db = undated_frame
   \<and> total_spending undated_frame = 4
   \<and> spending_by_category undated_frame = [(''Misc'', 4)]
   \<and> sum_list (map snd (spending_by_category undated_frame)) = 4
   \<and> monthly_trend undated_frame = []
   \<and> sum_list (map snd (monthly_trend undated_frame)) = 0"
proof -
  have 1: "add_all init_db [(''2024-01- 5'', ''Misc'', 4, [])] = Inr blank_day_db"
    by code_simp
  have 2: "fetch_all strict_dates blank_day_db = undated_frame"
    by code_simp
  have 3: "total_spending undated_frame = 4"
    by (simp add: total_spending_def undated_frame_def)
  have 4: "spending_by_category undated_frame = [(''Misc'', 4)]"
    by code_simp
  have 5: "monthly_trend undated_frame = []"
    by code_simp
  from 1 2 3 4 5 show ?thesis
    by simp
qed

text \<open>
  C4. \<^verbatim>\<open>fetch_all\<close> is to return the records by date descending, ties broken by id
  descending. It returns every stored record once, in the order of
  \<^verbatim>\<open>ORDER BY date DESC, id DESC\<close> on the stored text (lemmas \<open>mset_order_by\<close>,
  \<open>sorted_order_by\<close>). On the table made by three calls of \<^verbatim>\<open>add_expense\<close>, the
  second with the date \<^verbatim>\<open>2024-1-5\<close>, the records come as 5 January, 1 February,
  15 January 2024: the first is before the second in time.
\<close>

theorem fetch_all_short_date:
  "add_all init_db
     [(''2024-01-15'', ''Food'', 20, []), (''2024-1-5'', ''Food'', 30, []),
      (''2024-02-01'', ''Travel'', 100, [])] = Inr short_date_db
   \<and> map df_fields (fetch_all to_datetime short_date_db)
       = [(2, ''Food'', 30, None), (3, ''Travel'', 100, None), (1, ''Food'', 20, None)]
   \<and> map exp_date (order_by_date_id_desc (expenses short_date_db))
       = [''2024-1-5'', ''2024-02-01'', ''2024-01-15'']
   \<and> strptime ''2024-1-5'' = Inr \<lparr>year = 2024, month = 1, day = 5\<rparr>
   \<and> strptime ''2024-02-01'' = Inr \<lparr>year = 2024, month = 2, day = 1\<rparr>
   \<and> date_key \<lparr>year = 2024, month = 1, day = 5\<rparr> < date_key \<lparr>year = 2024, month = 2, day = 1\<rparr>"
proof -
  have 1: "add_all init_db
     [(''2024-01-15'', ''Food'', 20, []), (''2024-1-5'', ''Food'', 30, []),
      (''2024-02-01'', ''Travel'', 100, [])] = Inr short_date_db"
    by code_simp
  have "map exp_fields (order_by_date_id_desc (expenses short_date_db))
        = [(2, ''Food'', 30, None), (3, ''Travel'', 100, None), (1, ''Food'', 20, None)]"
    by code_simp
  then have 2: "map df_fields (fetch_all to_datetime short_date_db)
       = [(2, ''Food'', 30, None), (3, ''Travel'', 100, None), (1, ''Food'', 20, None)]"
    by (simp only: fetch_all_def df_fields_read_sql_query)
  have 3: "map exp_date (order_by_date_id_desc (expenses short_date_db))
       = [''2024-1-5'', ''2024-02-01'', ''2024-01-15'']"
    by code_simp
  have 4: "strptime ''2024-1-5'' = Inr \<lparr>year = 2024, month = 1, day = 5\<rparr>"
    by code_simp
  have 5: "strptime ''2024-02-01'' = Inr \<lparr>year = 2024, month = 2, day = 1\<rparr>"
    by code_simp
  have 6: "date_key \<lparr>year = 2024, month = 1, day = 5\<rparr>
             < date_key \<lparr>year = 2024, month = 2, day = 1\<rparr>"
    by (simp add: date_key_def)
  from 1 2 3 4 5 6 show ?thesis
    by blast
qed

text \<open>
  C5. For every frame, \<^verbatim>\<open>spending_by_category\<close> holds one entry for each category
  that occurs, with the sum of that category, in descending order of the sums, and
  \<^verbatim>\<open>monthly_trend\<close> holds one entry for each (year, month) that occurs, with the sum of
  the rows of that year and month, in ascending order of (year, month). For dates of the
  calendar each entry is keyed by the text \<^verbatim>\<open>YYYY-MM\<close> of its year and month, and the
  keys ascend as texts too.
\<close>

theorem aggregates_sorted:
  "sorted_wrt (\<lambda>a b. snd b \<le> snd a) (spending_by_category df)
   \<and> mset (spending_by_category df) =
       mset (map (\<lambda>c. (c, category_sum df c)) (sorted_list_of_set (df_category ` set df)))
   \<and> map snd (monthly_trend df) = map (month_sum df) (sorted_list_of_set (months df))
   \<and> length (monthly_trend df) = card (months df)
   \<and> ((\<forall>r \<in> set df. \<forall>d. df_date r = Some d \<longrightarrow> valid_date d) \<longrightarrow>
        list_all2 names_month (map fst (monthly_trend df)) (sorted_list_of_set (months df))
        \<and> sorted_wrt (<) (map fst (monthly_trend df))
        \<and> list_all is_YYYY_MM (map fst (monthly_trend df)))"
proof (intro conjI impI)
  show "sorted_wrt (\<lambda>a b. snd b \<le> snd a) (spending_by_category df)"
    by (simp add: spending_by_category_def sorted_sort_values_desc)
  show "mset (spending_by_category df) =
       mset (map (\<lambda>c. (c, category_sum df c)) (sorted_list_of_set (df_category ` set df)))"
    by (simp only: spending_by_category_def mset_sort_values_desc groupby_sum_eq)
  show "map snd (monthly_trend df) = map (month_sum df) (sorted_list_of_set (months df))"
    by (simp add: monthly_trend_eq o_def)
  show "length (monthly_trend df) = card (months df)"
    by (simp add: monthly_trend_eq months_def)
  show "list_all is_YYYY_MM (map fst (monthly_trend df))"
    by (simp add: monthly_trend_eq list_all_iff is_YYYY_MM_period_str)
next
  assume v: "\<forall>r \<in> set df. \<forall>d. df_date r = Some d \<longrightarrow> valid_date d"
  then show "list_all2 names_month (map fst (monthly_trend df)) (sorted_list_of_set (months df))"
    by (rule month_keys_named)
  from v show "sorted_wrt (<) (map fst (monthly_trend df))"
    by (rule sorted_month_keys)
qed

theorem aggregates_sorted_witness:
  "list_all (\<lambda>r. case df_date r of None \<Rightarrow> True | Some d \<Rightarrow> valid_date d) two_year_frame
   \<and> spending_by_category two_year_frame = [(''Travel'', 100), (''Food'', 57)]
   \<and> monthly_trend two_year_frame = [(''2023-01'', 7), (''2024-01'', 50), (''2024-02'', 100)]
   \<and> sorted_list_of_set (months two_year_frame) = [(2023, 1), (2024, 1), (2024, 2)]
   \<and> map (month_sum two_year_frame) [(2023, 1), (2024, 1), (2024, 2)] = [7, 50, 100]
   \<and> list_all2 names_month [''2023-01'', ''2024-01'', ''2024-02''] [(2023, 1), (2024, 1), (2024, 2)]
   \<and> sorted_wrt (<) (map fst (monthly_trend two_year_frame))
   \<and> list_all is_YYYY_MM (map fst (monthly_trend two_year_frame))"
proof -
  have l: "list_all (\<lambda>r. case df_date r of None \<Rightarrow> True | Some d \<Rightarrow> valid_date d)
             two_year_frame"
    by (simp add: two_year_frame_def valid_date_def days_in_month_def is_leap_def)
  then have h: "\<forall>r \<in> set two_year_frame. \<forall>d. df_date r = Some d \<longrightarrow> valid_date d"
    by (auto simp: list_all_iff)
  have c: "spending_by_category two_year_frame = [(''Travel'', 100), (''Food'', 57)]"
    by code_simp
  have m: "monthly_trend two_year_frame = [(''2023-01'', 7), (''2024-01'', 50), (''2024-02'', 100)]"
    by code_simp
  have s: "sorted_list_of_set (months two_year_frame) = [(2023, 1), (2024, 1), (2024, 2)]"
    by code_simp
  note claim = aggregates_sorted [of two_year_frame]
  from claim h have n: "list_all2 names_month (map fst (monthly_trend two_year_frame))
      (sorted_list_of_set (months two_year_frame))"
    and o: "sorted_wrt (<) (map fst (monthly_trend two_year_frame))"
    and y: "list_all is_YYYY_MM (map fst (monthly_trend two_year_frame))"
    by blast+
  from claim have "map snd (monthly_trend two_year_frame)
      = map (month_sum two_year_frame) (sorted_list_of_set (months two_year_frame))"
    by blast
  then have u: "map (month_sum two_year_frame) [(2023, 1), (2024, 1), (2024, 2)] = [7, 50, 100]"
    by (simp add: m s)
  from n have n': "list_all2 names_month [''2023-01'', ''2024-01'', ''2024-02'']
      [(2023, 1), (2024, 1), (2024, 2)]"
    by (simp add: m s)
  from l c m s u n' o y show ?thesis
    by blast
qed

text \<open>
  C6. On an empty frame \<^verbatim>\<open>total_spending\<close> is 0 and \<^verbatim>\<open>spending_by_category\<close> and
  \<^verbatim>\<open>monthly_trend\<close> are empty; on an empty series \<^verbatim>\<open>plot_pie_category\<close> and
  \<^verbatim>\<open>plot_monthly_trend\<close> print their notice, return \<^verbatim>\<open>None\<close> and make no call
  to the plotting library.
\<close>

theorem empty_input_safe:
  "total_spending [] = 0
   \<and> spending_by_category [] = []
   \<and> monthly_trend [] = []
   \<and> plot_pie_category [] out_path = ([Print ''No data to plot for category pie chart.''], None)
   \<and> plot_monthly_trend [] out_path = ([Print ''No data to plot for monthly trend.''], None)
   \<and> \<not> list_ex rasterizes (fst (plot_pie_category [] out_path))
   \<and> \<not> list_ex rasterizes (fst (plot_monthly_trend [] out_path))"
  by (simp add: total_spending_def spending_by_category_def monthly_trend_def
        groupby_sum_def groupby_sum_dropna_def sort_values_desc_def map_filter_simps
        plot_pie_category_def plot_monthly_trend_def rasterizes_def)

text \<open>
  C7 (as amended). A category that is empty after trimming is refused by
  \<^verbatim>\<open>prompt_add\<close>: it prints \<^verbatim>\<open>Cancelled or invalid category.\<close> and returns with
  the table unchanged, raising nothing; and whatever \<^verbatim>\<open>prompt_add\<close> stores has a
  category that is not empty. \<^verbatim>\<open>add_expense\<close> itself makes no check of the category:
  called with a blank category it stores the record with the empty category.
\<close>

theorem prompt_add_rejects_blank_category:
  "(strip l2 = [] \<longrightarrow>
      prompt_add py_float today db (l1 # l2 # rest) =
        Inr (db, if lower (strip l1) = ''q'' then [add_banner]
                 else [add_banner, ''Cancelled or invalid category.'']))
   \<and> (prompt_add py_float today db lines = Inr (db', out) \<longrightarrow>
        db' = db \<or> (\<exists>r. expenses db' = expenses db @ [r] \<and> exp_category r \<noteq> []))"
  using prompt_add_blank_category prompt_add_stores by blast

theorem prompt_add_rejects_blank_category_witness:
  "strip ''   '' = []
   \<and> prompt_add (\<lambda>s. Some 5) ''2024-03-03'' init_db [''2024-01-15'', ''   '', ''5'', ''lunch'']
       = Inr (init_db, [add_banner, ''Cancelled or invalid category.''])
   \<and> prompt_add (\<lambda>s. Some 5) ''2024-03-03'' init_db [''2024-01-15'', '' Food '', ''5'', []]
       = Inr (\<lparr>expenses = [\<lparr>exp_id = 1, exp_date = ''2024-01-15'', exp_category = ''Food'',
                                  exp_amount = 5, exp_notes = None\<rparr>],
                  sqlite_sequence = 1\<rparr>,
              [add_banner, added_message])"
proof -
  have s: "strip ''   '' = []"
    by (simp add: strip_def is_space_def)
  have q: "lower (strip ''2024-01-15'') \<noteq> ''q''"
    by (simp add: strip_def is_space_def lower_def)
  have a: "prompt_add (\<lambda>s. Some 5) ''2024-03-03'' init_db [''2024-01-15'', '' Food '', ''5'', []]
       = Inr (\<lparr>expenses = [\<lparr>exp_id = 1, exp_date = ''2024-01-15'', exp_category = ''Food'',
                                  exp_amount = 5, exp_notes = None\<rparr>],
                  sqlite_sequence = 1\<rparr>,
              [add_banner, added_message])"
    by code_simp
  have b: "prompt_add (\<lambda>s. Some 5) ''2024-03-03'' init_db [''2024-01-15'', ''   '', ''5'', ''lunch'']
       = Inr (init_db, [add_banner, ''Cancelled or invalid category.''])"
    using s q prompt_add_rejects_blank_category
      [where ?l2.0 = "''   ''" and ?l1.0 = "''2024-01-15''" and py_float = "\<lambda>s. Some 5"
         and today = "''2024-03-03''" and db = init_db and rest = "[''5'', ''lunch'']"]
    by simp
  from s a b show ?thesis
    by blast
qed

theorem add_expense_blank_category_counterexample:
  "add_expense init_db ''2024-01-15'' ''   '' 20 [] =
     Inr \<lparr>expenses = [\<lparr>exp_id = 1, exp_date = ''2024-01-15'', exp_category = [],
                         exp_amount = 20, exp_notes = None\<rparr>],
          sqlite_sequence = 1\<rparr>"
  by code_simp

text \<open>
  C8. Notes that are empty or only whitespace are to be stored as absent. Empty notes
  are; notes of three spaces pass the test \<^verbatim>\<open>if notes\<close> and are stripped after it, so
  \<^verbatim>\<open>add_expense\<close> stores the empty string.
\<close>

theorem add_expense_blank_notes:
  "add_expense init_db ''2024-01-15'' ''Food'' 20 ''   '' =
     Inr \<lparr>expenses = [\<lparr>exp_id = 1, exp_date = ''2024-01-15'', exp_category = ''Food'',
                         exp_amount = 20, exp_notes = Some []\<rparr>],
          sqlite_sequence = 1\<rparr>"
  by code_simp



text \<open>
  C10. \<^verbatim>\<open>search_expenses\<close> tests its options for absence in two ways. An empty
  string as start date, end date or category is no constraint: the result is that of
  the call without them, and with the category alone empty it is that of
  \<^verbatim>\<open>fetch_all\<close>, which holds every stored record once. An amount bound of 0 is a
  constraint: with \<^verbatim>\<open>min_amt = 0\<close> the result holds the stored records whose amount
  is not negative and no other.
\<close>

theorem search_expenses_absence_tests:
  "search_expenses to_datetime db (Some []) (Some []) (Some []) mn mx
     = search_expenses to_datetime db None None None mn mx
   \<and> search_expenses to_datetime db None None (Some []) None None = fetch_all to_datetime db
   \<and> map df_fields (search_expenses to_datetime db None None (Some []) None None)
       = map exp_fields (order_by_date_id_desc (expenses db))
   \<and> mset (map df_fields (search_expenses to_datetime db None None (Some []) None None))
       = mset (map exp_fields (expenses db))
   \<and> map df_fields (search_expenses to_datetime db None None None (Some 0) None)
       = map exp_fields (filter (\<lambda>r. 0 \<le> exp_amount r) (order_by_date_id_desc (expenses db)))
   \<and> map df_fields (search_expenses to_datetime db None None None None (Some 0))
       = map exp_fields (filter (\<lambda>r. exp_amount r \<le> 0) (order_by_date_id_desc (expenses db)))
   \<and> list_all (\<lambda>r. \<not> df_amount r < 0)
        (search_expenses to_datetime db None None None (Some 0) None)"
proof -
  have a: "search_expenses to_datetime db (Some []) (Some []) (Some []) mn mx
             = search_expenses to_datetime db None None None mn mx"
    by (simp add: search_expenses_def build_query_def)
  have b: "search_expenses to_datetime db None None (Some []) None None = fetch_all to_datetime db"
    by (simp add: search_expenses_def build_query_def fetch_all_def)
  have c: "map df_fields (search_expenses to_datetime db None None (Some []) None None)
       = map exp_fields (order_by_date_id_desc (expenses db))"
    by (simp add: b fetch_all_def df_fields_read_sql_query)
  have d: "mset (map df_fields (search_expenses to_datetime db None None (Some []) None None))
       = mset (map exp_fields (expenses db))"
    by (simp only: c mset_map mset_order_by)
  have e: "map df_fields (search_expenses to_datetime db None None None (Some 0) None)
       = map exp_fields (filter (\<lambda>r. 0 \<le> exp_amount r) (order_by_date_id_desc (expenses db)))"
    by (simp add: search_expenses_eq build_query_def df_fields_read_sql_query)
  have f: "map df_fields (search_expenses to_datetime db None None None None (Some 0))
       = map exp_fields (filter (\<lambda>r. exp_amount r \<le> 0) (order_by_date_id_desc (expenses db)))"
    by (simp add: search_expenses_eq build_query_def df_fields_read_sql_query)
  have "map df_amount (search_expenses to_datetime db None None None (Some 0) None)
       = map exp_amount (filter (\<lambda>r. 0 \<le> exp_amount r) (order_by_date_id_desc (expenses db)))"
    by (simp add: search_expenses_eq build_query_def df_amount_read_sql_query)
  then have "list_all (\<lambda>a. \<not> a < 0)
       (map df_amount (search_expenses to_datetime db None None None (Some 0) None))"
    by (simp add: list_all_iff)
  then have g: "list_all (\<lambda>r. \<not> df_amount r < 0)
        (search_expenses to_datetime db None None None (Some 0) None)"
    by (simp add: list_all_iff)
  from a b c d e f g show ?thesis
    by blast
qed

theorem search_expenses_absence_tests_witness:
  "map df_fields (search_expenses strict_dates refund_db None None (Some []) None None)
     = [(3, ''Gift'', 0, None), (2, ''Refund'', - 5, None), (1, ''Food'', 12, None)]
   \<and> search_expenses strict_dates refund_db None None (Some []) None None
       = fetch_all strict_dates refund_db
   \<and> map df_fields (search_expenses strict_dates refund_db None None None (Some 0) None)
       = [(3, ''Gift'', 0, None), (1, ''Food'', 12, None)]
   \<and> map df_fields (search_expenses strict_dates refund_db None None None None (Some 0))
       = [(3, ''Gift'', 0, None), (2, ''Refund'', - 5, None)]"
proof -
  note claim = search_expenses_absence_tests [of strict_dates refund_db None None]
  have o: "map exp_fields (order_by_date_id_desc (expenses refund_db))
     = [(3, ''Gift'', 0, None), (2, ''Refund'', - 5, None), (1, ''Food'', 12, None)]"
    by code_simp
  have p: "map exp_fields (filter (\<lambda>r. 0 \<le> exp_amount r)
             (order_by_date_id_desc (expenses refund_db)))
     = [(3, ''Gift'', 0, None), (1, ''Food'', 12, None)]"
    by code_simp
  have q: "map exp_fields (filter (\<lambda>r. exp_amount r \<le> 0)
             (order_by_date_id_desc (expenses refund_db)))
     = [(3, ''Gift'', 0, None), (2, ''Refund'', - 5, None)]"
    by code_simp
  from claim have c: "map df_fields
        (search_expenses strict_dates refund_db None None (Some []) None None)
      = map exp_fields (order_by_date_id_desc (expenses refund_db))"
    and b: "search_expenses strict_dates refund_db None None (Some []) None None
      = fetch_all strict_dates refund_db"
    and e: "map df_fields (search_expenses strict_dates refund_db None None None (Some 0) None)
      = map exp_fields (filter (\<lambda>r. 0 \<le> exp_amount r)
          (order_by_date_id_desc (expenses refund_db)))"
    and f: "map df_fields (search_expenses strict_dates refund_db None None None None (Some 0))
      = map exp_fields (filter (\<lambda>r. exp_amount r \<le> 0)
          (order_by_date_id_desc (expenses refund_db)))"
    by blast+
  from c o have 1: "map df_fields
        (search_expenses strict_dates refund_db None None (Some []) None None)
      = [(3, ''Gift'', 0, None), (2, ''Refund'', - 5, None), (1, ''Food'', 12, None)]"
    by (rule trans)
  from e p have 2: "map df_fields
        (search_expenses strict_dates refund_db None None None (Some 0) None)
      = [(3, ''Gift'', 0, None), (1, ''Food'', 12, None)]"
    by (rule trans)
  from f q have 3: "map df_fields
        (search_expenses strict_dates refund_db None None None None (Some 0))
      = [(3, ''Gift'', 0, None), (2, ''Refund'', - 5, None)]"
    by (rule trans)
  from 1 b 2 3 show ?thesis
    by blast
qed

end
